theory Spec2Isabelle
  imports Main "HOL-Library.Sublist" "HOL-Library.AList"
begin

section \<open>Byte strings and text\<close>

text \<open>
  The network client of \<^verbatim>\<open>client.py\<close> is modelled. A Python \<^verbatim>\<open>bytes\<close> object is a list
  of 8-bit characters. Python text (\<^verbatim>\<open>str\<close>) is modelled on its ASCII fragment, as a list
  of characters below 128; on that fragment \<^verbatim>\<open>str.encode()\<close> changes nothing and
  \<^verbatim>\<open>bytes.decode()\<close> succeeds. A byte of 128 or more makes \<open>decode\<close> report
  \<^verbatim>\<open>UnicodeDecodeError\<close>: that is what Python does for ill-formed UTF-8, while well-formed
  multi-byte UTF-8 in a header block is outside the modelled fragment.
\<close>

type_synonym bytes = "char list"

datatype py_error =
    ValueError
  | IndexError
  | UnicodeDecodeError
  | JSONDecodeError
  | AttributeError
  | UIError

definition CRLF :: bytes where
  "CRLF = [CHR 0x0D, CHR 0x0A]"

definition CRLF2 :: bytes where
  "CRLF2 = [CHR 0x0D, CHR 0x0A, CHR 0x0D, CHR 0x0A]"

definition ascii :: "char list \<Rightarrow> bool" where
  "ascii s = list_all (\<lambda>c. (of_char c :: nat) < 128) s"

definition decode :: "bytes \<Rightarrow> py_error + string" where
  "decode b = (if ascii b then Inr b else Inl UnicodeDecodeError)"

definition encode :: "string \<Rightarrow> bytes" where
  "encode s = s"

text \<open>
  \<^verbatim>\<open>s.partition(sep)\<close> cuts at the first occurrence of \<open>sep\<close>; \<open>None\<close> stands for
  Python's answer \<^verbatim>\<open>(s, b"", b"")\<close> when \<open>sep\<close> does not occur. \<^verbatim>\<open>sep in s\<close> is
  \<open>contains\<close>.
\<close>

fun partition_py :: "'a list \<Rightarrow> 'a list \<Rightarrow> ('a list \<times> 'a list) option" where
  "partition_py sep [] = (if sep = [] then Some ([], []) else None)"
| "partition_py sep (x # xs) =
     (if prefix sep (x # xs) then Some ([], drop (length sep) (x # xs))
      else map_option (\<lambda>(b, a). (x # b, a)) (partition_py sep xs))"

definition contains :: "'a list \<Rightarrow> 'a list \<Rightarrow> bool" where
  "contains sep s = (partition_py sep s \<noteq> None)"

lemma partition_py_shorter:
  "partition_py sep s = Some (b, a) \<Longrightarrow> sep \<noteq> [] \<Longrightarrow> length a < length s"
proof (induction s arbitrary: b)
  case Nil
  then show ?case by simp
next
  case (Cons x xs)
  show ?case
  proof (cases "prefix sep (x # xs)")
    case True
    with Cons.prems show ?thesis by (cases sep) auto
  next
    case False
    with Cons.prems obtain b' where "partition_py sep xs = Some (b', a)"
      by (auto split: prod.splits)
    with Cons.IH Cons.prems(2) show ?thesis by fastforce
  qed
qed

text \<open>
  \<^verbatim>\<open>s.split(sep)\<close> cuts at every occurrence, left to right. Python raises for an empty
  separator; every separator of the client is a non-empty constant.
\<close>

function split_py :: "'a list \<Rightarrow> 'a list \<Rightarrow> 'a list list" where
  "split_py sep s =
     (if sep = [] then [s]
      else case partition_py sep s of
             None \<Rightarrow> [s]
           | Some (b, a) \<Rightarrow> b # split_py sep a)"
  by pat_completeness auto
termination
  by (relation "measure (\<lambda>(sep, s). length s)") (auto dest: partition_py_shorter)

declare split_py.simps [simp del]

text \<open>\<^verbatim>\<open>s.split(sep, 1)\<close>: at most one cut.\<close>

definition split1_py :: "'a list \<Rightarrow> 'a list \<Rightarrow> 'a list list" where
  "split1_py sep s =
     (case partition_py sep s of None \<Rightarrow> [s] | Some (b, a) \<Rightarrow> [b, a])"

fun join_py :: "'a list \<Rightarrow> 'a list list \<Rightarrow> 'a list" where
  "join_py sep [] = []"
| "join_py sep [x] = x"
| "join_py sep (x # y # ys) = x @ sep @ join_py sep (y # ys)"

definition lower_char :: "char \<Rightarrow> char" where
  "lower_char c =
     (let n = (of_char c :: nat) in if 65 \<le> n \<and> n \<le> 90 then char_of (n + 32) else c)"

definition lower :: "string \<Rightarrow> string" where
  "lower s = map lower_char s"

subsection \<open>Integers as text\<close>

definition digit_val :: "char \<Rightarrow> nat option" where
  "digit_val c =
     (let n = (of_char c :: nat) in if 48 \<le> n \<and> n \<le> 57 then Some (n - 48) else None)"

definition digit_char :: "nat \<Rightarrow> char" where
  "digit_char d = char_of (48 + d)"

text \<open>\<^verbatim>\<open>str(n)\<close> for a natural number and for an integer.\<close>

fun str_nat :: "nat \<Rightarrow> string" where
  "str_nat n =
     (if n < 10 then [digit_char n] else str_nat (n div 10) @ [digit_char (n mod 10)])"

declare str_nat.simps [simp del]

definition str_int :: "int \<Rightarrow> string" where
  "str_int i = (if i < 0 then CHR ''-'' # str_nat (nat (- i)) else str_nat (nat i))"

text \<open>
  \<^verbatim>\<open>int(s)\<close> on ASCII text: surrounding whitespace is stripped, one sign is allowed,
  then decimal digits, where single underscores may stand between digits. Anything else is
  \<^verbatim>\<open>ValueError\<close>. (The limit of 4300 digits of recent interpreters is not modelled.)
\<close>

definition is_space :: "char \<Rightarrow> bool" where
  "is_space c =
     (let n = (of_char c :: nat) in (9 \<le> n \<and> n \<le> 13) \<or> (28 \<le> n \<and> n \<le> 32))"

definition strip :: "string \<Rightarrow> string" where
  "strip s = rev (dropWhile is_space (rev (dropWhile is_space s)))"

fun parse_digits :: "nat \<Rightarrow> string \<Rightarrow> nat option" where
  "parse_digits acc [] = Some acc"
| "parse_digits acc (c # cs) =
     (case digit_val c of
        Some d \<Rightarrow> parse_digits (10 * acc + d) cs
      | None \<Rightarrow>
          if c = CHR ''_'' then
            (case cs of
               [] \<Rightarrow> None
             | d # _ \<Rightarrow> if digit_val d = None then None else parse_digits acc cs)
          else None)"


definition py_nat :: "string \<Rightarrow> nat option" where
  "py_nat s =
     (case s of
        [] \<Rightarrow> None
      | c # _ \<Rightarrow> if digit_val c = None then None else parse_digits 0 s)"

definition py_int :: "string \<Rightarrow> py_error + int" where
  "py_int s =
     (let t = strip s;
          r = (case t of
                 [] \<Rightarrow> None
               | c # cs \<Rightarrow>
                   if c = CHR ''-'' then map_option (\<lambda>n. - int n) (py_nat cs)
                   else if c = CHR ''+'' then map_option int (py_nat cs)
                   else map_option int (py_nat t))
      in case r of None \<Rightarrow> Inl ValueError | Some i \<Rightarrow> Inr i)"

section \<open>JSON values\<close>

text \<open>
  The values that travel through the client (decoded replies, messages, identifiers) are
  JSON values. A Python \<^verbatim>\<open>dict\<close> is an association list with distinct keys in insertion
  order; \<^verbatim>\<open>None\<close> is \<open>JNull\<close>.

  \<^verbatim>\<open>json.loads\<close> is modelled on a fragment of JSON: objects, arrays, integers,
  \<^verbatim>\<open>true\<close>, \<^verbatim>\<open>false\<close>, \<^verbatim>\<open>null\<close> and strings of printable ASCII characters without
  escapes, in an ASCII text. On that fragment it returns what Python returns; a text
  outside the fragment (floats, escapes, other encodings) is reported as
  \<^verbatim>\<open>JSONDecodeError\<close>, as is every text that is not JSON. The parser takes the number of
  nested calls it may make; \<open>json_loads\<close> gives it one more than the number of tokens.
\<close>

datatype json =
    JNull
  | JBool bool
  | JInt int
  | JStr string
  | JList "json list"
  | JDict "(string \<times> json) list"

datatype token =
    T_lbrace | T_rbrace | T_lbrack | T_rbrack | T_colon | T_comma
  | T_str string | T_int int | T_true | T_false | T_null

definition json_ws :: "char \<Rightarrow> bool" where
  "json_ws c = (c = CHR '' '' \<or> c = CHR 0x09 \<or> c = CHR 0x0A \<or> c = CHR 0x0D)"

definition plain_char :: "char \<Rightarrow> bool" where
  "plain_char c =
     (let n = (of_char c :: nat) in 32 \<le> n \<and> n < 128 \<and> c \<noteq> CHR 0x22 \<and> c \<noteq> CHR 0x5C)"

definition is_digit :: "char \<Rightarrow> bool" where
  "is_digit c = (digit_val c \<noteq> None)"

definition lex_digits :: "string \<Rightarrow> (string \<times> string) option" where
  "lex_digits t =
     (case t of
        [] \<Rightarrow> None
      | c # cs \<Rightarrow>
          if c = CHR ''0'' then Some ([c], cs)
          else if is_digit c then Some (c # takeWhile is_digit cs, dropWhile is_digit cs)
          else None)"

definition lex_number :: "string \<Rightarrow> (int \<times> string) option" where
  "lex_number s =
     (let neg = (case s of c # _ \<Rightarrow> c = CHR ''-'' | [] \<Rightarrow> False)
      in case lex_digits (if neg then tl s else s) of
           None \<Rightarrow> None
         | Some (ds, rest) \<Rightarrow>
             if (case rest of
                   c # _ \<Rightarrow> c = CHR ''.'' \<or> c = CHR ''e'' \<or> c = CHR ''E''
                 | [] \<Rightarrow> False)
             then None
             else map_option (\<lambda>n. (if neg then - int n else int n, rest))
                    (parse_digits 0 ds))"

lemma lex_digits_shorter: "lex_digits t = Some (ds, rest) \<Longrightarrow> length rest < length t"
  by (auto simp: lex_digits_def less_Suc_eq_le length_dropWhile_le split: list.splits if_splits)

lemma lex_number_shorter: "lex_number s = Some (i, rest) \<Longrightarrow> length rest < length s"
proof -
  assume "lex_number s = Some (i, rest)"
  then have "(\<exists>ds. lex_digits (tl s) = Some (ds, rest)) \<or> (\<exists>ds. lex_digits s = Some (ds, rest))"
    by (auto simp: lex_number_def Let_def split: option.splits if_splits)
  then show ?thesis
  proof
    assume "\<exists>ds. lex_digits (tl s) = Some (ds, rest)"
    then have "length rest < length (tl s)" by (auto dest: lex_digits_shorter)
    then show ?thesis by simp
  next
    assume "\<exists>ds. lex_digits s = Some (ds, rest)"
    then show ?thesis by (auto dest: lex_digits_shorter)
  qed
qed

function lex :: "string \<Rightarrow> token list option" where
  "lex [] = Some []"
| "lex (c # cs) =
     (if json_ws c then lex cs
      else if c = CHR ''{'' then map_option ((#) T_lbrace) (lex cs)
      else if c = CHR ''}'' then map_option ((#) T_rbrace) (lex cs)
      else if c = CHR ''['' then map_option ((#) T_lbrack) (lex cs)
      else if c = CHR '']'' then map_option ((#) T_rbrack) (lex cs)
      else if c = CHR '':'' then map_option ((#) T_colon) (lex cs)
      else if c = CHR '','' then map_option ((#) T_comma) (lex cs)
      else if c = CHR 0x22 then
        (let s = takeWhile plain_char cs; rest = drop (length s) cs
         in case rest of
              [] \<Rightarrow> None
            | q # rest' \<Rightarrow> if q = CHR 0x22 then map_option ((#) (T_str s)) (lex rest') else None)
      else if prefix ''true'' (c # cs) then map_option ((#) T_true) (lex (drop 3 cs))
      else if prefix ''false'' (c # cs) then map_option ((#) T_false) (lex (drop 4 cs))
      else if prefix ''null'' (c # cs) then map_option ((#) T_null) (lex (drop 3 cs))
      else case lex_number (c # cs) of
             None \<Rightarrow> None
           | Some (i, rest) \<Rightarrow> map_option ((#) (T_int i)) (lex rest))"
  by pat_completeness auto
termination
proof (relation "measure length", goal_cases)
  case (9 c cs s rest q rest')
  then have "length (q # rest') \<le> length cs" by (metis diff_le_self length_drop)
  then show ?case by simp
next
  case (13 c cs x i rest)
  then show ?case using lex_number_shorter[of "c # cs" i rest] by simp
qed auto

fun parse_value :: "nat \<Rightarrow> token list \<Rightarrow> (json \<times> token list) option"
  and parse_elems :: "nat \<Rightarrow> json list \<Rightarrow> token list \<Rightarrow> (json \<times> token list) option"
  and parse_members :: "nat \<Rightarrow> (string \<times> json) list \<Rightarrow> token list \<Rightarrow> (json \<times> token list) option"
where
  "parse_value 0 ts = None"
| "parse_value (Suc n) [] = None"
| "parse_value (Suc n) (t # ts) =
     (case t of
        T_null \<Rightarrow> Some (JNull, ts)
      | T_true \<Rightarrow> Some (JBool True, ts)
      | T_false \<Rightarrow> Some (JBool False, ts)
      | T_int i \<Rightarrow> Some (JInt i, ts)
      | T_str s \<Rightarrow> Some (JStr s, ts)
      | T_lbrack \<Rightarrow>
          (case ts of
             T_rbrack # ts' \<Rightarrow> Some (JList [], ts')
           | _ \<Rightarrow> parse_elems n [] ts)
      | T_lbrace \<Rightarrow>
          (case ts of
             T_rbrace # ts' \<Rightarrow> Some (JDict [], ts')
           | _ \<Rightarrow> parse_members n [] ts)
      | _ \<Rightarrow> None)"
| "parse_elems 0 acc ts = None"
| "parse_elems (Suc n) acc ts =
     (case parse_value n ts of
        None \<Rightarrow> None
      | Some (v, rest) \<Rightarrow>
          (case rest of
             T_comma # rest' \<Rightarrow> parse_elems n (acc @ [v]) rest'
           | T_rbrack # rest' \<Rightarrow> Some (JList (acc @ [v]), rest')
           | _ \<Rightarrow> None))"
| "parse_members 0 acc ts = None"
| "parse_members (Suc n) acc ts =
     (case ts of
        T_str k # T_colon # ts' \<Rightarrow>
          (case parse_value n ts' of
             None \<Rightarrow> None
           | Some (v, rest) \<Rightarrow>
               (case rest of
                  T_comma # rest' \<Rightarrow> parse_members n (AList.update k v acc) rest'
                | T_rbrace # rest' \<Rightarrow> Some (JDict (AList.update k v acc), rest')
                | _ \<Rightarrow> None))
      | _ \<Rightarrow> None)"

definition json_loads :: "bytes \<Rightarrow> py_error + json" where
  "json_loads b =
     (case lex b of
        None \<Rightarrow> Inl JSONDecodeError
      | Some ts \<Rightarrow>
          (case parse_value (Suc (length ts)) ts of
             Some (v, []) \<Rightarrow> Inr v
           | _ \<Rightarrow> Inl JSONDecodeError))"

subsection \<open>Python operations on JSON values\<close>

definition hex_char :: "nat \<Rightarrow> char" where
  "hex_char d = (if d < 10 then digit_char d else ''abcdef'' ! (d - 10))"

definition json_escape :: "char \<Rightarrow> string" where
  "json_escape c =
     (let n = (of_char c :: nat) in
      if c = CHR 0x22 then [CHR 0x5C, CHR 0x22]
      else if c = CHR 0x5C then [CHR 0x5C, CHR 0x5C]
      else if c = CHR 0x0A then [CHR 0x5C, CHR ''n'']
      else if c = CHR 0x0D then [CHR 0x5C, CHR ''r'']
      else if c = CHR 0x09 then [CHR 0x5C, CHR ''t'']
      else if c = CHR 0x08 then [CHR 0x5C, CHR ''b'']
      else if c = CHR 0x0C then [CHR 0x5C, CHR ''f'']
      else if n < 32 \<or> 127 \<le> n then
        [CHR 0x5C, CHR ''u'', CHR ''0'', CHR ''0'', hex_char (n div 16), hex_char (n mod 16)]
      else [c])"

definition json_string :: "string \<Rightarrow> string" where
  "json_string s = [CHR 0x22] @ concat (map json_escape s) @ [CHR 0x22]"

fun json_dumps :: "json \<Rightarrow> string"
  and dumps_items :: "json list \<Rightarrow> string list"
  and dumps_members :: "(string \<times> json) list \<Rightarrow> string list"
where
  "json_dumps JNull = ''null''"
| "json_dumps (JBool b) = (if b then ''true'' else ''false'')"
| "json_dumps (JInt i) = str_int i"
| "json_dumps (JStr s) = json_string s"
| "json_dumps (JList xs) = ''['' @ join_py '', '' (dumps_items xs) @ '']''"
| "json_dumps (JDict kvs) = ''{'' @ join_py '', '' (dumps_members kvs) @ ''}''"
| "dumps_items [] = []"
| "dumps_items (x # xs) = json_dumps x # dumps_items xs"
| "dumps_members [] = []"
| "dumps_members ((k, v) # kvs) = (json_string k @ '': '' @ json_dumps v) # dumps_members kvs"

definition repr_escape :: "char \<Rightarrow> char \<Rightarrow> string" where
  "repr_escape q c =
     (let n = (of_char c :: nat) in
      if c = CHR 0x5C then [CHR 0x5C, CHR 0x5C]
      else if c = q then [CHR 0x5C, q]
      else if c = CHR 0x0A then [CHR 0x5C, CHR ''n'']
      else if c = CHR 0x0D then [CHR 0x5C, CHR ''r'']
      else if c = CHR 0x09 then [CHR 0x5C, CHR ''t'']
      else if n < 32 \<or> 127 \<le> n then
        [CHR 0x5C, CHR ''x'', hex_char (n div 16), hex_char (n mod 16)]
      else [c])"

definition repr_str :: "string \<Rightarrow> string" where
  "repr_str s =
     (let q = (if CHR 0x27 \<in> set s \<and> CHR 0x22 \<notin> set s then CHR 0x22 else CHR 0x27)
      in [q] @ concat (map (repr_escape q) s) @ [q])"

fun py_repr :: "json \<Rightarrow> string"
  and repr_items :: "json list \<Rightarrow> string list"
  and repr_members :: "(string \<times> json) list \<Rightarrow> string list"
where
  "py_repr JNull = ''None''"
| "py_repr (JBool b) = (if b then ''True'' else ''False'')"
| "py_repr (JInt i) = str_int i"
| "py_repr (JStr s) = repr_str s"
| "py_repr (JList xs) = ''['' @ join_py '', '' (repr_items xs) @ '']''"
| "py_repr (JDict kvs) = ''{'' @ join_py '', '' (repr_members kvs) @ ''}''"
| "repr_items [] = []"
| "repr_items (x # xs) = py_repr x # repr_items xs"
| "repr_members [] = []"
| "repr_members ((k, v) # kvs) = (repr_str k @ '': '' @ py_repr v) # repr_members kvs"

definition py_str :: "json \<Rightarrow> string" where
  "py_str v = (case v of JStr s \<Rightarrow> s | _ \<Rightarrow> py_repr v)"

fun py_eq :: "json \<Rightarrow> json \<Rightarrow> bool"
  and eq_items :: "json list \<Rightarrow> json list \<Rightarrow> bool"
  and eq_members :: "(string \<times> json) list \<Rightarrow> (string \<times> json) list \<Rightarrow> bool"
where
  "py_eq JNull b = (b = JNull)"
| "py_eq (JBool x) b =
     (case b of JBool y \<Rightarrow> x = y | JInt j \<Rightarrow> (if x then 1 else 0) = j | _ \<Rightarrow> False)"
| "py_eq (JInt i) b =
     (case b of JInt j \<Rightarrow> i = j | JBool y \<Rightarrow> i = (if y then 1 else 0) | _ \<Rightarrow> False)"
| "py_eq (JStr s) b = (b = JStr s)"
| "py_eq (JList xs) b = (case b of JList ys \<Rightarrow> eq_items xs ys | _ \<Rightarrow> False)"
| "py_eq (JDict kvs) b =
     (case b of
        JDict kws \<Rightarrow> length kvs = length kws \<and> eq_members kvs kws
      | _ \<Rightarrow> False)"
| "eq_items [] ys = (ys = [])"
| "eq_items (x # xs) ys = (case ys of [] \<Rightarrow> False | y # ys' \<Rightarrow> py_eq x y \<and> eq_items xs ys')"
| "eq_members [] kws = True"
| "eq_members ((k, v) # kvs) kws =
     ((case map_of kws k of None \<Rightarrow> False | Some w \<Rightarrow> py_eq v w) \<and> eq_members kvs kws)"

definition py_in :: "json \<Rightarrow> json list \<Rightarrow> bool" where
  "py_in x xs = list_ex (\<lambda>y. py_eq y x) xs"

definition py_truthy :: "json \<Rightarrow> bool" where
  "py_truthy v =
     (case v of
        JNull \<Rightarrow> False
      | JBool b \<Rightarrow> b
      | JInt i \<Rightarrow> i \<noteq> 0
      | JStr s \<Rightarrow> s \<noteq> []
      | JList xs \<Rightarrow> xs \<noteq> []
      | JDict kvs \<Rightarrow> kvs \<noteq> [])"

definition py_get :: "json \<Rightarrow> string \<Rightarrow> py_error + json" where
  "py_get d k =
     (case d of
        JDict kvs \<Rightarrow> Inr (case map_of kvs k of None \<Rightarrow> JNull | Some v \<Rightarrow> v)
      | _ \<Rightarrow> Inl AttributeError)"

section \<open>The client's state\<close>

text \<open>
  The fields of \<^verbatim>\<open>Client\<close>, and the parts of the world the client acts on: the files
  it writes, what it prints, what it has sent, and the chat window it notifies.

  A file holds either the text \<^verbatim>\<open>json.dump\<close> wrote for a value, or other bytes.
  Reading back a text that \<^verbatim>\<open>json.dump\<close> wrote gives the value again (the contract of the
  library on JSON values); other bytes are parsed. Directories and input/output failures
  are not modelled: \<^verbatim>\<open>os.makedirs\<close> and \<^verbatim>\<open>open\<close> succeed.
\<close>

datatype file_content = Json_dump json | Raw bytes

type_synonym fs = "(string \<times> file_content) list"

datatype line = Print string "json list" | PrintError string py_error

record chat_frame_state =
  selected_chat_id :: json
  displayed :: "json list"
  display_fails :: bool

type_synonym socket = "bytes list"

text \<open>
  How the receive thread stands when nothing more is to be read: it has returned (the peer
  closed the connection), it has left the loop on an exception, it waits in \<^verbatim>\<open>recv\<close>
  (holding the chunks its unfinished pass has read), or it spins in the body loop of a
  closed connection.
\<close>

datatype loop_end = Returned | Broke py_error | Blocked socket | Spinning

record client =
  user_id :: json
  user_login :: json
  username :: json
  response_queue :: "(int \<times> bytes) list"
  chat_frame :: "chat_frame_state option"
  files :: fs
  console :: "line list"
  sent :: "bytes list"
  receiver :: loop_end

definition json_load :: "file_content \<Rightarrow> py_error + json" where
  "json_load c = (case c of Json_dump v \<Rightarrow> Inr v | Raw b \<Rightarrow> json_loads b)"

definition chat_file :: "json \<Rightarrow> string" where
  "chat_file chat_id = ''chat_history/chat_'' @ py_str chat_id @ ''.json''"

subsection \<open>The history store\<close>

text \<open>
  \<^verbatim>\<open>save_message\<close> (lines 139 to 158) and \<^verbatim>\<open>load_chat_history\<close> (lines 160 to 172) of
  \<^verbatim>\<open>client.py\<close>. \<^verbatim>\<open>append\<close> on a value that is not a list raises \<^verbatim>\<open>AttributeError\<close>.
\<close>

definition save_message :: "fs \<Rightarrow> json \<Rightarrow> json \<Rightarrow> py_error + fs" where
  "save_message fs chat_id message_data =
     (let file_path = chat_file chat_id;
          loaded = (case map_of fs file_path of
                      Some c \<Rightarrow> json_load c
                    | None \<Rightarrow> Inr (JList []))
      in case loaded of
           Inl e \<Rightarrow> Inl e
         | Inr chat_history \<Rightarrow>
             (case chat_history of
                JList msgs \<Rightarrow>
                  Inr (AList.update file_path (Json_dump (JList (msgs @ [message_data]))) fs)
              | _ \<Rightarrow> Inl AttributeError))"


subsection \<open>Pushed messages\<close>

text \<open>
  The body of the \<^verbatim>\<open>try\<close> block of \<^verbatim>\<open>handle_incoming_message\<close>: the state it reaches, and
  the exception that ended it, if any. \<^verbatim>\<open>display_message\<close> belongs to the window: it shows
  the message or fails, as the field \<open>display_fails\<close> says.
\<close>

definition handle_body :: "client \<Rightarrow> bytes \<Rightarrow> py_error option \<times> client" where
  "handle_body st body =
     (case json_loads body of
        Inl e \<Rightarrow> (Some e, st)
      | Inr message \<Rightarrow>
          (case py_get message ''chat_id'' of
             Inl e \<Rightarrow> (Some e, st)
           | Inr chat_id \<Rightarrow>
               if \<not> py_truthy chat_id then (None, st)
               else
                 (case save_message (files st) chat_id message of
                    Inl e \<Rightarrow> (Some e, st)
                  | Inr fs' \<Rightarrow>
                      (case (py_get message ''sender'', py_get message ''content'') of
                         (Inr sender, Inr content) \<Rightarrow>
                           (let st1 = st\<lparr>files := fs',
                                          console := console st @
                                            [Print ''Message from'' [chat_id, sender, content]]\<rparr>
                            in case chat_frame st1 of
                                 None \<Rightarrow> (Some AttributeError, st1)
                               | Some cf \<Rightarrow>
                                   if py_eq (selected_chat_id cf) chat_id then
                                     (if display_fails cf then (Some UIError, st1)
                                      else (None, st1\<lparr>chat_frame :=
                                              Some (cf\<lparr>displayed := displayed cf @ [message]\<rparr>)\<rparr>))
                                   else (None, st1))
                       | _ \<Rightarrow> (Some AttributeError, st\<lparr>files := fs'\<rparr>)))))"

definition handle_incoming_message :: "client \<Rightarrow> bytes \<Rightarrow> client" where
  "handle_incoming_message st body =
     (case handle_body st body of
        (None, st') \<Rightarrow> st'
      | (Some e, st') \<Rightarrow>
          st'\<lparr>console := console st' @ [PrintError ''Error handling incoming message:'' e]\<rparr>)"

section \<open>The receive loop\<close>

text \<open>
  The socket is the list of the byte strings that the coming calls of \<^verbatim>\<open>recv(1024)\<close>
  return, in order. An empty byte string is what \<^verbatim>\<open>recv\<close> returns once the peer has closed
  the connection. When the list is used up, \<^verbatim>\<open>recv\<close> does not return: the thread waits.
\<close>

datatype header_read = H_closed | H_blocked | H_data bytes socket

text \<open>The header loop (lines 89 to 94): \<open>H_closed\<close> is the \<^verbatim>\<open>return\<close> on an empty chunk.\<close>

fun read_header :: "bytes \<Rightarrow> socket \<Rightarrow> header_read" where
  "read_header data [] = (if contains CRLF2 data then H_data data [] else H_blocked)"
| "read_header data (chunk # sock) =
     (if contains CRLF2 data then H_data data (chunk # sock)
      else if chunk = [] then H_closed
      else read_header (data @ chunk) sock)"

datatype body_read = B_blocked | B_spinning | B_data bytes socket

text \<open>
  The body loop (lines 106 and 107). On a closed connection \<^verbatim>\<open>recv\<close> returns the empty byte
  string again and again, and the body never grows: the loop spins.
\<close>

fun read_body :: "bytes \<Rightarrow> int \<Rightarrow> socket \<Rightarrow> body_read" where
  "read_body body content_length [] =
     (if int (length body) < content_length then B_blocked else B_data body [])"
| "read_body body content_length (chunk # sock) =
     (if int (length body) < content_length then
        (if chunk = [] then B_spinning else read_body (body @ chunk) content_length sock)
      else B_data body (chunk # sock))"

text \<open>
  The loop over the header lines (lines 100 to 103). A line without \<^verbatim>\<open>": "\<close> splits into
  one part, and unpacking it into \<^verbatim>\<open>key, value\<close> raises \<^verbatim>\<open>ValueError\<close>.
\<close>

fun headers_loop :: "(string \<times> string) list \<Rightarrow> string list \<Rightarrow> py_error + (string \<times> string) list" where
  "headers_loop headers_dict [] = Inr headers_dict"
| "headers_loop headers_dict (header # rest) =
     (case split1_py '': '' header of
        [key, val] \<Rightarrow> headers_loop (AList.update (lower key) val headers_dict) rest
      | _ \<Rightarrow> Inl ValueError)"

datatype frame_read =
    Frame_closed
  | Frame_blocked
  | Frame_spinning
  | Frame_error py_error
  | Frame_ok string "(string \<times> string) list" bytes socket

definition content_length_of :: "(string \<times> string) list \<Rightarrow> py_error + int" where
  "content_length_of headers_dict =
     (case map_of headers_dict ''content-length'' of
        None \<Rightarrow> Inr 0
      | Some v \<Rightarrow> py_int v)"

text \<open>
  One pass of the loop up to the complete body (the header loop, the split of the header
  block, the header dictionary, the body loop). \<open>Frame_ok\<close> carries the status line, the
  header dictionary, the body and the chunks not yet read.
\<close>

definition decode_frame :: "socket \<Rightarrow> frame_read" where
  "decode_frame sock =
     (case read_header [] sock of
        H_closed \<Rightarrow> Frame_closed
      | H_blocked \<Rightarrow> Frame_blocked
      | H_data data sock1 \<Rightarrow>
          (let (headers, body) = (case partition_py CRLF2 data of
                                    Some (h, b) \<Rightarrow> (h, b)
                                  | None \<Rightarrow> (data, []))
           in case decode headers of
                Inl e \<Rightarrow> Frame_error e
              | Inr text \<Rightarrow>
                  (case split_py CRLF text of
                     [] \<Rightarrow> Frame_error IndexError
                   | status_line # header_lines \<Rightarrow>
                       (case headers_loop [] header_lines of
                          Inl e \<Rightarrow> Frame_error e
                        | Inr headers_dict \<Rightarrow>
                            (case content_length_of headers_dict of
                               Inl e \<Rightarrow> Frame_error e
                             | Inr content_length \<Rightarrow>
                                 (case read_body body content_length sock1 of
                                    B_blocked \<Rightarrow> Frame_blocked
                                  | B_spinning \<Rightarrow> Frame_spinning
                                  | B_data body' sock2 \<Rightarrow>
                                      Frame_ok status_line headers_dict body' sock2))))))"

text \<open>
  Lines 109 to 115: the status is parsed once the body is complete; the frame is routed
  only when the status is 200 or 201.
\<close>

definition status_of :: "string \<Rightarrow> py_error + int" where
  "status_of status_line =
     (case split_py '' '' status_line of
        _ # token # _ \<Rightarrow> py_int token
      | _ \<Rightarrow> Inl IndexError)"

definition route :: "client \<Rightarrow> string \<Rightarrow> (string \<times> string) list \<Rightarrow> bytes \<Rightarrow> py_error + client" where
  "route st status_line headers_dict body =
     (case status_of status_line of
        Inl e \<Rightarrow> Inl e
      | Inr status \<Rightarrow>
          (let type_header = (case map_of headers_dict ''type'' of
                                None \<Rightarrow> ''response''
                              | Some v \<Rightarrow> v)
           in if status = 200 \<or> status = 201 then
                (if type_header = ''message'' then Inr (handle_incoming_message st body)
                 else Inr (st\<lparr>response_queue := response_queue st @ [(status, body)]\<rparr>))
              else Inr st))"

definition receive_error :: "client \<Rightarrow> py_error \<Rightarrow> client" where
  "receive_error st e = st\<lparr>console := console st @ [PrintError ''Receive error:'' e]\<rparr>"

lemma read_header_consumes:
  "read_header data sock = H_data data' sock' \<Longrightarrow>
     length sock' \<le> length sock \<and> (\<not> contains CRLF2 data \<longrightarrow> length sock' < length sock)"
proof (induction sock arbitrary: data)
  case Nil
  then show ?case by (auto split: if_splits)
next
  case (Cons chunk sock)
  show ?case
  proof (cases "contains CRLF2 data")
    case True
    with Cons.prems show ?thesis by simp
  next
    case False
    with Cons.prems have "chunk \<noteq> []" and "read_header (data @ chunk) sock = H_data data' sock'"
      by (auto split: if_splits)
    with Cons.IH[of "data @ chunk"] show ?thesis by auto
  qed
qed

lemma read_body_consumes:
  "read_body body n sock = B_data body' sock' \<Longrightarrow> length sock' \<le> length sock"
proof (induction sock arbitrary: body)
  case Nil
  then show ?case by (auto split: if_splits)
next
  case (Cons chunk sock)
  then show ?case by (fastforce split: if_splits)
qed

lemma not_contains_empty: "\<not> contains CRLF2 []"
  by (simp add: contains_def CRLF2_def)

lemma decode_frame_consumes:
  assumes "decode_frame sock = Frame_ok status_line headers_dict body rest"
  shows "length rest < length sock"
proof -
  from assms obtain data sock1 where h: "read_header [] sock = H_data data sock1"
    by (auto simp: decode_frame_def split: header_read.splits)
  from assms h obtain b n where "read_body b n sock1 = B_data body rest"
    by (auto simp: decode_frame_def Let_def
        split: prod.splits sum.splits list.splits body_read.splits)
  then have "length rest \<le> length sock1" by (rule read_body_consumes)
  moreover from read_header_consumes[OF h] not_contains_empty
  have "length sock1 < length sock" by simp
  ultimately show ?thesis by simp
qed

text \<open>
  \<^verbatim>\<open>_receive_loop\<close> (lines 82 to 118), as a function of the client and the socket: the
  client when the thread has ended or cannot go on. Every exception of a pass is printed
  and ends the loop.
\<close>

function receive_loop :: "client \<Rightarrow> socket \<Rightarrow> client" where
  "receive_loop st sock =
     (case decode_frame sock of
        Frame_closed \<Rightarrow> st\<lparr>receiver := Returned\<rparr>
      | Frame_blocked \<Rightarrow> st\<lparr>receiver := Blocked sock\<rparr>
      | Frame_spinning \<Rightarrow> st\<lparr>receiver := Spinning\<rparr>
      | Frame_error e \<Rightarrow> (receive_error st e)\<lparr>receiver := Broke e\<rparr>
      | Frame_ok status_line headers_dict body rest \<Rightarrow>
          (case route st status_line headers_dict body of
             Inl e \<Rightarrow> (receive_error st e)\<lparr>receiver := Broke e\<rparr>
           | Inr st' \<Rightarrow> receive_loop st' rest))"
  by pat_completeness auto
termination
  by (relation "measure (\<lambda>(st, sock). length sock)") (auto dest: decode_frame_consumes)

declare receive_loop.simps [simp del]

section \<open>The facade\<close>

text \<open>
  A call of the facade either returns, raises or never returns (\<open>Hangs\<close>: it waits in
  \<^verbatim>\<open>response_queue.get()\<close> for a reply that is never put).

  The two threads are put in sequence: after \<^verbatim>\<open>sendall\<close>, the receive thread decodes
  \<open>inbound\<close>, all that the peer sends before the next request, on top of the chunks of
  its unfinished pass; then \<^verbatim>\<open>get\<close> takes the head of the queue, or waits forever when the
  queue is empty.
\<close>

datatype 'a outcome = Returns 'a | Raises py_error | Hangs

text \<open>\<^verbatim>\<open>send_request\<close> (lines 49 to 74): the URL with its query string.\<close>

definition request_url :: "string \<Rightarrow> (string \<times> json) list option \<Rightarrow> string" where
  "request_url path params =
     (let params_str = join_py ''&''
            (map (\<lambda>(key, v). key @ ''='' @ py_str v) (case params of None \<Rightarrow> [] | Some ps \<Rightarrow> ps))
      in if params_str \<noteq> [] then path @ ''?'' @ params_str else path)"

text \<open>The bytes that \<^verbatim>\<open>send_request\<close> hands to \<^verbatim>\<open>sendall\<close>.\<close>

definition request_bytes ::
  "string \<Rightarrow> string \<Rightarrow> (string \<times> json) list option \<Rightarrow> bytes option \<Rightarrow> bytes" where
  "request_bytes method path params body =
     (let url = request_url path params;
          body_bytes = (case body of None \<Rightarrow> [] | Some b \<Rightarrow> b);
          headers = [(''Content-Length'',
                      if body_bytes \<noteq> [] then str_nat (length body_bytes) else ''0'')];
          request = method @ '' '' @ url @ '' HTTP/1.1'' @ CRLF
                     @ join_py CRLF (map (\<lambda>(key, v). key @ '': '' @ v) headers)
                     @ CRLF2
      in if body_bytes \<noteq> [] then encode request @ body_bytes else encode request)"

definition receive :: "client \<Rightarrow> socket \<Rightarrow> client" where
  "receive st inbound =
     (case receiver st of
        Blocked pending \<Rightarrow> receive_loop st (pending @ inbound)
      | _ \<Rightarrow> st)"

definition send_request ::
  "client \<Rightarrow> string \<Rightarrow> string \<Rightarrow> (string \<times> json) list option \<Rightarrow> bytes option \<Rightarrow> socket
     \<Rightarrow> client \<times> (int \<times> bytes) option" where
  "send_request st method path params body inbound =
     (let st1 = st\<lparr>sent := sent st @ [request_bytes method path params body]\<rparr>;
          st2 = receive st1 inbound
      in case response_queue st2 of
           [] \<Rightarrow> (st2, None)
         | reply # waiting \<Rightarrow> (st2\<lparr>response_queue := waiting\<rparr>, Some reply))"

definition print_line :: "client \<Rightarrow> string \<Rightarrow> json list \<Rightarrow> client" where
  "print_line st label vs = st\<lparr>console := console st @ [Print label vs]\<rparr>"

text \<open>\<^verbatim>\<open>login\<close> (lines 175 to 194); \<open>Returns JNull\<close> is the bare \<^verbatim>\<open>return\<close>.\<close>

definition login :: "client \<Rightarrow> json \<Rightarrow> json \<Rightarrow> socket \<Rightarrow> client \<times> json outcome" where
  "login st login_name password inbound =
     (let body = encode (json_dumps (JDict [(''login'', login_name), (''password'', password)]));
          (st1, reply) = send_request st ''POST'' ''/login'' None (Some body) inbound
      in case reply of
           None \<Rightarrow> (st1, Hangs)
         | Some (status, response) \<Rightarrow>
             (case json_loads response of
                Inl e \<Rightarrow> (st1, Raises e)
              | Inr response_data \<Rightarrow>
                  if status = 200 then
                    (case py_get response_data ''id'' of
                       Inl e \<Rightarrow> (st1, Raises e)
                     | Inr uid \<Rightarrow>
                         (let st2 = st1\<lparr>user_id := uid, user_login := login_name\<rparr>
                          in case py_get response_data ''username'' of
                               Inl e \<Rightarrow> (st2, Raises e)
                             | Inr name \<Rightarrow>
                                 (let st3 = st2\<lparr>username := name\<rparr>
                                  in case py_get response_data ''message'' of
                                       Inl e \<Rightarrow> (st3, Raises e)
                                     | Inr m \<Rightarrow> (print_line st3 [] [m], Returns name))))
                  else
                    (case py_get response_data ''message'' of
                       Inl e \<Rightarrow> (st1, Raises e)
                     | Inr m \<Rightarrow> (print_line st1 ''Login failed:'' [m], Returns JNull))))"

text \<open>\<^verbatim>\<open>download\<close> (lines 350 to 365).\<close>

definition download :: "client \<Rightarrow> json \<Rightarrow> socket \<Rightarrow> client \<times> bytes option outcome" where
  "download st file_path inbound =
     (let params = [(''file'', file_path)];
          (st1, reply) = send_request st ''GET'' ''/download'' (Some params) None inbound
      in case reply of
           None \<Rightarrow> (st1, Hangs)
         | Some (status, body) \<Rightarrow>
             if status = 200 then
               (print_line st1 ''File downloaded successfully!'' [], Returns (Some body))
             else
               (case json_loads body of
                  Inl e \<Rightarrow> (st1, Raises e)
                | Inr response_data \<Rightarrow>
                    (case py_get response_data ''message'' of
                       Inl e \<Rightarrow> (st1, Raises e)
                     | Inr m \<Rightarrow> (print_line st1 ''File download failed: '' [m], Returns None))))"

text \<open>
  Python lists are objects: the caller of \<^verbatim>\<open>create_new_chat\<close> and the client hold the same
  list. The store maps the address of a list to its elements; a reference that a caller
  holds always points into the store.
\<close>

type_synonym store = "(nat \<times> json list) list"

definition fresh :: "store \<Rightarrow> nat" where
  "fresh h = Suc (fold max (map fst h) 0)"

definition deref :: "store \<Rightarrow> nat \<Rightarrow> json list" where
  "deref h a = (case map_of h a of Some xs \<Rightarrow> xs | None \<Rightarrow> [])"

text \<open>\<^verbatim>\<open>create_new_chat\<close> (lines 229 to 249): the body of its request.\<close>

definition create_chat_body :: "json \<Rightarrow> json \<Rightarrow> json list \<Rightarrow> bytes" where
  "create_chat_body chat_name creator ms =
     encode (json_dumps (JDict [(''chat_name'', chat_name), (''creator_id'', creator),
                                (''members'', JList ms)]))"

text \<open>
  The first four lines of \<^verbatim>\<open>create_new_chat\<close>: the list that \<open>members\<close> names after them
  (a new one when none was given), and the store.
\<close>

definition members_arg :: "client \<Rightarrow> store \<Rightarrow> nat option \<Rightarrow> store \<times> nat" where
  "members_arg st h members =
     (let (h1, ref) = (case members of
                         None \<Rightarrow> (AList.update (fresh h) [] h, fresh h)
                       | Some a \<Rightarrow> (h, a))
      in (if \<not> py_in (user_id st) (deref h1 ref)
          then AList.update ref (deref h1 ref @ [user_id st]) h1
          else h1, ref))"

definition create_new_chat ::
  "client \<Rightarrow> store \<Rightarrow> json \<Rightarrow> nat option \<Rightarrow> socket \<Rightarrow> client \<times> store \<times> json outcome" where
  "create_new_chat st h chat_name members inbound =
     (let (h2, ref) = members_arg st h members;
          body = create_chat_body chat_name (user_id st) (deref h2 ref);
          (st1, reply) = send_request st ''POST'' ''/create_chat'' None (Some body) inbound
      in case reply of
           None \<Rightarrow> (st1, h2, Hangs)
         | Some (status, response) \<Rightarrow>
             (case json_loads response of
                Inl e \<Rightarrow> (st1, h2, Raises e)
              | Inr response_data \<Rightarrow>
                  if status = 201 then
                    (case (py_get response_data ''message'', py_get response_data ''chat_id'') of
                       (Inr m, Inr chat_id) \<Rightarrow>
                         (print_line st1 ''Chat ID:'' [m, chat_id], h2, Returns chat_id)
                     | _ \<Rightarrow> (st1, h2, Raises AttributeError))
                  else
                    (case py_get response_data ''message'' of
                       Inl e \<Rightarrow> (st1, h2, Raises e)
                     | Inr m \<Rightarrow>
                         (print_line st1 ''Chat creation failed:'' [m], h2, Returns JNull))))"

text \<open>The client as \<^verbatim>\<open>__init__\<close> leaves it: no session, the receive thread waiting.\<close>

definition new_client :: client where
  "new_client = \<lparr>user_id = JNull, user_login = JNull, username = JNull, response_queue = [],
          chat_frame = None, files = [], console = [], sent = [], receiver = Blocked []\<rparr>"

section \<open>Example frames\<close>

definition reply_200 :: bytes where
  "reply_200 = ''HTTP/1.1 200 OK'' @ CRLF @ ''Content-Length: 2'' @ CRLF2 @ ''ok''"


definition push_body :: bytes where
  "push_body = ''{\"chat_id\":3,\"sender\":\"Ann\"}''"

definition push_200 :: bytes where
  "push_200 = ''HTTP/1.1 200 OK'' @ CRLF @ ''TYPE: message'' @ CRLF @ ''Content-Length: 28''
                @ CRLF2 @ push_body"

definition push_404 :: bytes where
  "push_404 = ''HTTP/1.1 404 Not Found'' @ CRLF @ ''Type: message'' @ CRLF
                @ ''Content-Length: 28'' @ CRLF2 @ push_body"





definition login_ok :: bytes where
  "login_ok = ''HTTP/1.1 200 OK'' @ CRLF @ ''Content-Length: 25'' @ CRLF2
               @ ''{\"id\":7,\"username\":\"Bob\"}''"

definition login_refused :: bytes where
  "login_refused = ''HTTP/1.1 201 Created'' @ CRLF @ ''Content-Length: 20'' @ CRLF2
               @ ''{\"message\":\"denied\"}''"

definition login_garbled :: bytes where
  "login_garbled = ''HTTP/1.1 201 Created'' @ CRLF @ ''Content-Length: 4'' @ CRLF2 @ ''oops''"

definition chat_created :: bytes where
  "chat_created = ''HTTP/1.1 201 Created'' @ CRLF @ ''Content-Length: 13'' @ CRLF2
                    @ ''{\"chat_id\":9}''"

definition reply_404 :: bytes where
  "reply_404 = ''HTTP/1.1 404 Not Found'' @ CRLF @ ''Content-Length: 23'' @ CRLF2
                 @ ''{\"message\":\"not found\"}''"

section \<open>Properties of the receive loop\<close>

lemma receive_loop_next:
  "decode_frame sock = Frame_ok status_line headers_dict body rest \<Longrightarrow>
   route st status_line headers_dict body = Inr st' \<Longrightarrow>
   receive_loop st sock = receive_loop st' rest"
  by (subst receive_loop.simps) simp




section \<open>Pushed frames\<close>

lemma handle_body_frame:
  assumes "handle_body st body = (r, st')"
  shows "response_queue st' = response_queue st \<and> receiver st' = receiver st
         \<and> sent st' = sent st \<and> user_id st' = user_id st
         \<and> user_login st' = user_login st \<and> username st' = username st"
  using assms unfolding handle_body_def Let_def
  by (auto split: sum.splits if_splits option.splits prod.splits)

lemma handle_incoming_message_frame:
  "response_queue (handle_incoming_message st body) = response_queue st
   \<and> receiver (handle_incoming_message st body) = receiver st
   \<and> sent (handle_incoming_message st body) = sent st
   \<and> user_id (handle_incoming_message st body) = user_id st
   \<and> user_login (handle_incoming_message st body) = user_login st
   \<and> username (handle_incoming_message st body) = username st"
proof -
  obtain r st' where h: "handle_body st body = (r, st')" by (cases "handle_body st body")
  from handle_body_frame[OF h] h show ?thesis
    by (cases r) (simp_all add: handle_incoming_message_def)
qed

lemma handle_body_sent:
  "handle_body (st\<lparr>sent := x\<rparr>) body =
     (fst (handle_body st body), (snd (handle_body st body))\<lparr>sent := x\<rparr>)"
  unfolding handle_body_def Let_def
  by (auto split: sum.splits if_splits option.splits prod.splits)

lemma handle_incoming_message_sent:
  "handle_incoming_message (st\<lparr>sent := x\<rparr>) body = (handle_incoming_message st body)\<lparr>sent := x\<rparr>"
  by (cases "handle_body st body")
     (auto simp: handle_incoming_message_def handle_body_sent split: option.splits)

lemma route_push:
  assumes "status_of status_line = Inr status"
    and "map_of headers_dict ''type'' = Some ''message''"
  shows "route st status_line headers_dict body =
           Inr (if status = 200 \<or> status = 201 then handle_incoming_message st body else st)"
  using assms by (simp add: route_def)

text \<open>
  C4 (as amended). A frame whose header dictionary has \<open>type\<close> (the header name in any
  case) with the value \<open>message\<close> is never put on the response queue. With status 200 or
  201 it goes to \<open>handle_incoming_message\<close>; with any other status it is dropped. Either
  way the loop goes on with the chunks after the frame, and a request that waits goes on
  waiting for what those chunks put on the queue.
\<close>

theorem push_frame_goes_to_handler:
  assumes "decode_frame sock = Frame_ok status_line headers_dict body rest"
    and "status_of status_line = Inr status"
    and "map_of headers_dict ''type'' = Some ''message''"
  shows "receive_loop st sock =
           receive_loop (if status = 200 \<or> status = 201 then handle_incoming_message st body
                         else st) rest
         \<and> response_queue (handle_incoming_message st body) = response_queue st
         \<and> (receiver st = Blocked [] \<longrightarrow>
              send_request st method path params b sock =
              send_request (if status = 200 \<or> status = 201 then handle_incoming_message st body
                            else st) method path params b rest)"
proof -
  let ?h = "\<lambda>s. if status = 200 \<or> status = 201 then handle_incoming_message s body else s"
  have step: "receive_loop s sock = receive_loop (?h s) rest" for s
    using receive_loop_next[OF assms(1) route_push[OF assms(2,3)]] .
  have queue: "response_queue (handle_incoming_message st body) = response_queue st"
    by (simp add: handle_incoming_message_frame)
  have call: "send_request st method path params b sock =
              send_request (?h st) method path params b rest" if idle: "receiver st = Blocked []"
  proof -
    let ?req = "request_bytes method path params b"
    let ?st1 = "st\<lparr>sent := sent st @ [?req]\<rparr>"
    have s: "(?h st)\<lparr>sent := sent (?h st) @ [?req]\<rparr> = ?h ?st1"
      by (simp add: handle_incoming_message_sent handle_incoming_message_frame)
    have r: "receiver (?h ?st1) = Blocked []"
      using idle by (simp add: handle_incoming_message_frame)
    have "receive ?st1 sock = receive_loop ?st1 sock"
      using idle by (simp add: receive_def)
    also have "\<dots> = receive_loop (?h ?st1) rest" by (rule step)
    also have "\<dots> = receive (?h ?st1) rest"
      using r by (simp only: receive_def loop_end.case append_Nil)
    finally have "receive ?st1 sock = receive ((?h st)\<lparr>sent := sent (?h st) @ [?req]\<rparr>) rest"
      by (simp only: s)
    then show ?thesis by (simp only: send_request_def Let_def)
  qed
  from step[of st] queue call show ?thesis by blast
qed

theorem push_frame_goes_to_handler_witness:
  "decode_frame [push_200, reply_200] =
     Frame_ok ''HTTP/1.1 200 OK'' [(''type'', ''message''), (''content-length'', ''28'')]
       push_body [reply_200]
   \<and> status_of ''HTTP/1.1 200 OK'' = Inr 200
   \<and> receiver new_client = Blocked []
   \<and> send_request new_client ''GET'' ''/chats'' None None [push_200, reply_200] =
       send_request (handle_incoming_message new_client push_body)
         ''GET'' ''/chats'' None None [reply_200]
   \<and> snd (send_request new_client ''GET'' ''/chats'' None None [push_200, reply_200]) =
       Some (200, ''ok'')"
proof -
  have d: "decode_frame [push_200, reply_200] =
     Frame_ok ''HTTP/1.1 200 OK'' [(''type'', ''message''), (''content-length'', ''28'')]
       push_body [reply_200]"
    by code_simp
  have s: "status_of ''HTTP/1.1 200 OK'' = Inr 200" by code_simp
  have t: "map_of [(''type'', ''message''), (''content-length'', ''28'')] ''type'' = Some ''message''"
    by simp
  have i: "receiver new_client = Blocked []" by (simp add: new_client_def)
  have r: "snd (send_request (handle_incoming_message new_client push_body)
         ''GET'' ''/chats'' None None [reply_200]) = Some (200, ''ok'')"
    by code_simp
  from push_frame_goes_to_handler[OF d s t, of new_client "''GET''" "''/chats''" None None] d s i r
  show ?thesis by simp
qed

text \<open>
  C4 as stated fails: a frame with \<open>Type: message\<close> and status 404 is not routed to the
  push handler. The loop leaves the client as it was, while the handler would have stored
  the message.
\<close>

theorem push_with_other_status_counterexample:
  "decode_frame [push_404] =
     Frame_ok ''HTTP/1.1 404 Not Found'' [(''type'', ''message''), (''content-length'', ''28'')]
       push_body []
   \<and> receive_loop new_client [push_404] = new_client
   \<and> handle_incoming_message new_client push_body \<noteq> new_client"
  by code_simp





section \<open>What a pass of the loop reads\<close>

lemma partition_py_length:
  "partition_py sep xs = Some (h, b) \<Longrightarrow> length sep \<le> length xs"
proof (induction xs arbitrary: h)
  case Nil
  then show ?case by (simp split: if_splits)
next
  case (Cons x xs)
  show ?case
  proof (cases "prefix sep (x # xs)")
    case True
    then show ?thesis by (rule prefix_length_le)
  next
    case False
    with Cons.prems obtain h' where "partition_py sep xs = Some (h', b)"
      by (auto split: prod.splits)
    from Cons.IH[OF this] show ?thesis by simp
  qed
qed

lemma prefix_append_short:
  "prefix s (a @ ys) \<Longrightarrow> length s \<le> length a \<Longrightarrow> prefix s a"
  by (auto simp: prefix_append)

lemma partition_py_append:
  "partition_py sep xs = Some (h, b) \<Longrightarrow> partition_py sep (xs @ ys) = Some (h, b @ ys)"
proof (induction xs arbitrary: h)
  case Nil
  then show ?case by (cases ys) (auto split: if_splits)
next
  case (Cons x xs)
  show ?case
  proof (cases "prefix sep (x # xs)")
    case True
    then have "prefix sep ((x # xs) @ ys)" by (rule prefix_prefix)
    moreover from True have "length sep \<le> length (x # xs)" by (rule prefix_length_le)
    moreover have "drop (length sep) ((x # xs) @ ys) = drop (length sep) (x # xs) @ ys"
      if "length sep \<le> length (x # xs)"
      using that by (simp only: drop_append) simp
    ultimately have "partition_py sep ((x # xs) @ ys) = Some ([], drop (length sep) (x # xs) @ ys)"
      by simp
    with True Cons.prems show ?thesis by simp
  next
    case False
    with Cons.prems obtain h' where p: "partition_py sep xs = Some (h', b)" and h: "h = x # h'"
      by (auto split: prod.splits)
    from partition_py_length[OF p] have "length sep \<le> length xs" .
    with False have "\<not> prefix sep ((x # xs) @ ys)"
      using prefix_append_short[of sep "x # xs" ys] by auto
    with Cons.IH[OF p] h show ?thesis by simp
  qed
qed

lemma read_header_take:
  "read_header d sock = H_data data sock1 \<Longrightarrow>
     contains CRLF2 data \<and> (\<exists>k\<le>length sock. data = d @ concat (take k sock) \<and> sock1 = drop k sock)"
proof (induction sock arbitrary: d)
  case Nil
  then show ?case by (auto split: if_splits)
next
  case (Cons chunk sock)
  show ?case
  proof (cases "contains CRLF2 d")
    case True
    with Cons.prems have "data = d" "sock1 = chunk # sock" by auto
    with True show ?thesis by (auto intro: exI[of _ 0])
  next
    case False
    with Cons.prems have "read_header (d @ chunk) sock = H_data data sock1"
      by (auto split: if_splits)
    from Cons.IH[OF this] obtain k where c: "contains CRLF2 data" and k: "k \<le> length sock"
      "data = (d @ chunk) @ concat (take k sock)" "sock1 = drop k sock" by blast
    then have "Suc k \<le> length (chunk # sock) \<and> data = d @ concat (take (Suc k) (chunk # sock))
               \<and> sock1 = drop (Suc k) (chunk # sock)" by simp
    with c show ?thesis by blast
  qed
qed

lemma read_body_take:
  "read_body b n sock = B_data body rest \<Longrightarrow>
     n \<le> int (length body) \<and> (\<exists>j\<le>length sock. body = b @ concat (take j sock) \<and> rest = drop j sock)"
proof (induction sock arbitrary: b)
  case Nil
  then show ?case by (auto split: if_splits)
next
  case (Cons chunk sock)
  show ?case
  proof (cases "int (length b) < n")
    case False
    with Cons.prems have "body = b" "rest = chunk # sock" by auto
    with False show ?thesis by (auto intro: exI[of _ 0])
  next
    case True
    with Cons.prems have "read_body (b @ chunk) n sock = B_data body rest"
      by (auto split: if_splits)
    from Cons.IH[OF this] obtain j where c: "n \<le> int (length body)" and j: "j \<le> length sock"
      "body = (b @ chunk) @ concat (take j sock)" "rest = drop j sock" by blast
    then have "Suc j \<le> length (chunk # sock) \<and> body = b @ concat (take (Suc j) (chunk # sock))
               \<and> rest = drop (Suc j) (chunk # sock)" by simp
    with c show ?thesis by blast
  qed
qed

lemma decode_frame_parts:
  assumes "decode_frame sock = Frame_ok status_line headers_dict body rest"
  obtains data sock1 headers b0 header_lines n where
    "read_header [] sock = H_data data sock1"
    "partition_py CRLF2 data = Some (headers, b0)"
    "ascii headers"
    "split_py CRLF headers = status_line # header_lines"
    "headers_loop [] header_lines = Inr headers_dict"
    "content_length_of headers_dict = Inr n"
    "read_body b0 n sock1 = B_data body rest"
proof -
  from assms obtain data sock1 where h: "read_header [] sock = H_data data sock1"
    by (auto simp: decode_frame_def split: header_read.splits)
  from read_header_take[OF h] have "contains CRLF2 data" by simp
  then obtain headers b0 where p: "partition_py CRLF2 data = Some (headers, b0)"
    by (auto simp: contains_def)
  from assms h p obtain header_lines n where "ascii headers"
    "split_py CRLF headers = status_line # header_lines"
    "headers_loop [] header_lines = Inr headers_dict"
    "content_length_of headers_dict = Inr n"
    "read_body b0 n sock1 = B_data body rest"
    by (auto simp: decode_frame_def decode_def Let_def
        split: sum.splits list.splits body_read.splits if_splits)
  with h p that show ?thesis by blast
qed

text \<open>
  C5. The body that a pass of the loop delivers is everything that the chunks read in that
  pass hold after the first \<open>CRLF2\<close>: the pass reads whole chunks until that many bytes
  are at least the declared length, and cuts nothing off. So when a reply and a pushed
  frame arrive in one chunk, the reply's body holds the pushed frame, which is never
  decoded; had they arrived in two chunks, the push would have been handled and stored.
\<close>

theorem decoded_body_is_not_cut_at_content_length:
  "(decode_frame sock = Frame_ok status_line headers_dict body rest \<longrightarrow>
      (\<exists>k h n. 0 < k \<and> k \<le> length sock \<and> rest = drop k sock
         \<and> partition_py CRLF2 (concat (take k sock)) = Some (h, body)
         \<and> content_length_of headers_dict = Inr n \<and> n \<le> int (length body)))
   \<and> receive_loop new_client [reply_200 @ push_200] =
       new_client\<lparr>response_queue := [(200, ''ok'' @ push_200)]\<rparr>
   \<and> receive_loop new_client [reply_200, push_200] =
       (handle_incoming_message new_client push_body)\<lparr>response_queue := [(200, ''ok'')]\<rparr>
   \<and> files (handle_incoming_message new_client push_body) \<noteq> files new_client"
proof -
  have general: "\<exists>k h n. 0 < k \<and> k \<le> length sock \<and> rest = drop k sock
         \<and> partition_py CRLF2 (concat (take k sock)) = Some (h, body)
         \<and> content_length_of headers_dict = Inr n \<and> n \<le> int (length body)"
    if ok: "decode_frame sock = Frame_ok status_line headers_dict body rest"
  proof -
    from ok obtain data sock1 headers b0 n where
      h: "read_header [] sock = H_data data sock1"
      and p: "partition_py CRLF2 data = Some (headers, b0)"
      and n: "content_length_of headers_dict = Inr n"
      and b: "read_body b0 n sock1 = B_data body rest"
      by (rule decode_frame_parts)
    from read_header_take[OF h] obtain k where
      k: "k \<le> length sock" "data = concat (take k sock)" "sock1 = drop k sock"
      by auto
    from read_body_take[OF b] obtain j where
      le: "n \<le> int (length body)" and
      j: "j \<le> length sock1" "body = b0 @ concat (take j sock1)" "rest = drop j sock1"
      by auto
    from p have "data \<noteq> []" by (auto simp: CRLF2_def)
    with k have kpos: "0 < k" by (cases k) auto
    have cat: "concat (take (k + j) sock) = data @ concat (take j sock1)"
      using k by (simp add: take_add)
    from partition_py_append[OF p, of "concat (take j sock1)"] j cat
    have "partition_py CRLF2 (concat (take (k + j) sock)) = Some (headers, body)" by simp
    moreover from k j have "k + j \<le> length sock" "rest = drop (k + j) sock"
      by (simp_all add: add.commute)
    ultimately show ?thesis using kpos n le by (intro exI[of _ "k + j"]) auto
  qed
  have glued: "receive_loop new_client [reply_200 @ push_200] =
       new_client\<lparr>response_queue := [(200, ''ok'' @ push_200)]\<rparr>"
    by code_simp
  have apart: "receive_loop new_client [reply_200, push_200] =
       (handle_incoming_message new_client push_body)\<lparr>response_queue := [(200, ''ok'')]\<rparr>"
    by code_simp
  have stored: "files (handle_incoming_message new_client push_body) \<noteq> files new_client"
    by code_simp
  from general glued apart stored show ?thesis by blast
qed

theorem decoded_body_is_not_cut_at_content_length_witness:
  "decode_frame [reply_200 @ push_200] =
     Frame_ok ''HTTP/1.1 200 OK'' [(''content-length'', ''2'')] (''ok'' @ push_200) []
   \<and> (\<exists>k h n. 0 < k \<and> k \<le> length [reply_200 @ push_200]
         \<and> [] = drop k [reply_200 @ push_200]
         \<and> partition_py CRLF2 (concat (take k [reply_200 @ push_200])) = Some (h, ''ok'' @ push_200)
         \<and> content_length_of [(''content-length'', ''2'')] = Inr n
         \<and> n \<le> int (length (''ok'' @ push_200)))
   \<and> content_length_of [(''content-length'', ''2'')] = Inr 2
   \<and> length (''ok'' @ push_200) = 84"
proof -
  have d: "decode_frame [reply_200 @ push_200] =
     Frame_ok ''HTTP/1.1 200 OK'' [(''content-length'', ''2'')] (''ok'' @ push_200) []"
    by code_simp
  have c: "content_length_of [(''content-length'', ''2'')] = Inr 2" by code_simp
  have l: "length (''ok'' @ push_200) = 84" by code_simp
  from decoded_body_is_not_cut_at_content_length[of "[reply_200 @ push_200]"
      "''HTTP/1.1 200 OK''" "[(''content-length'', ''2'')]" "''ok'' @ push_200" "[]"] d c l
  show ?thesis by blast
qed

section \<open>Requests read back\<close>







subsection \<open>Decimal numerals\<close>












subsection \<open>A request read back\<close>








section \<open>Properties of the history store\<close>




section \<open>Properties of the facade\<close>

lemma route_frame:
  assumes "route st status_line headers_dict body = Inr st'"
  shows "user_id st' = user_id st \<and> user_login st' = user_login st
         \<and> username st' = username st \<and> sent st' = sent st"
  using assms
  by (auto simp: route_def Let_def handle_incoming_message_frame split: sum.splits if_splits)

lemma receive_loop_frame:
  "user_id (receive_loop st sock) = user_id st \<and> user_login (receive_loop st sock) = user_login st
   \<and> username (receive_loop st sock) = username st \<and> sent (receive_loop st sock) = sent st"
proof (induction st sock rule: receive_loop.induct)
  case (1 st sock)
  show ?case
  proof (cases "decode_frame sock")
    case (Frame_ok status_line headers_dict body rest)
    show ?thesis
    proof (cases "route st status_line headers_dict body")
      case (Inl e)
      with Frame_ok show ?thesis
        by (subst (1 2 3 4) receive_loop.simps) (simp add: receive_error_def)
    next
      case (Inr st')
      from 1[OF Frame_ok Inr] route_frame[OF Inr] Frame_ok Inr show ?thesis
        by (subst (1 2 3 4) receive_loop.simps) simp
    qed
  qed (subst (1 2 3 4) receive_loop.simps, simp add: receive_error_def)+
qed

lemma send_request_frame:
  assumes "send_request st method path params body inbound = (st1, reply)"
  shows "user_id st1 = user_id st \<and> user_login st1 = user_login st
         \<and> username st1 = username st
         \<and> sent st1 = sent st @ [request_bytes method path params body]"
proof -
  let ?st0 = "st\<lparr>sent := sent st @ [request_bytes method path params body]\<rparr>"
  have "user_id (receive ?st0 inbound) = user_id st
        \<and> user_login (receive ?st0 inbound) = user_login st
        \<and> username (receive ?st0 inbound) = username st
        \<and> sent (receive ?st0 inbound) = sent st @ [request_bytes method path params body]"
    by (simp add: receive_def receive_loop_frame split: loop_end.splits)
  with assms show ?thesis
    by (auto simp: send_request_def Let_def split: list.splits)
qed

lemma bob_reply: "json_loads ''{\"id\":7,\"username\":\"Bob\"}'' =
    Inr (JDict [(''id'', JInt 7), (''username'', JStr ''Bob'')])"
  by code_simp

text \<open>
  C7 (as amended). For a reply that \<open>send_request\<close> hands to \<open>login\<close>: with status 200 and
  the body \<^verbatim>\<open>{"id":7,"username":"Bob"}\<close>, the user id becomes 7, the name \<open>Bob\<close>, and
  \<open>login\<close> returns \<open>Bob\<close>; with any other status the session fields stay as they were,
  and \<open>login\<close> returns \<^verbatim>\<open>None\<close> whenever the body is a JSON object.
\<close>

theorem login_on_delivered_reply:
  assumes "send_request st ''POST'' ''/login'' None
             (Some (encode (json_dumps (JDict [(''login'', login_name), (''password'', password)]))))
             inbound = (st1, Some (status, response))"
  shows "(status = 200 \<and> response = ''{\"id\":7,\"username\":\"Bob\"}'' \<longrightarrow>
            snd (login st login_name password inbound) = Returns (JStr ''Bob'')
            \<and> user_id (fst (login st login_name password inbound)) = JInt 7
            \<and> username (fst (login st login_name password inbound)) = JStr ''Bob'')
         \<and> (status \<noteq> 200 \<longrightarrow>
            user_id (fst (login st login_name password inbound)) = user_id st
            \<and> user_login (fst (login st login_name password inbound)) = user_login st
            \<and> username (fst (login st login_name password inbound)) = username st
            \<and> (\<forall>kvs. json_loads response = Inr (JDict kvs) \<longrightarrow>
                  snd (login st login_name password inbound) = Returns JNull))"
proof -
  note same = send_request_frame[OF assms]
  have ok: "snd (login st login_name password inbound) = Returns (JStr ''Bob'')
            \<and> user_id (fst (login st login_name password inbound)) = JInt 7
            \<and> username (fst (login st login_name password inbound)) = JStr ''Bob''"
    if "status = 200" "response = ''{\"id\":7,\"username\":\"Bob\"}''"
    using that assms
    by (simp add: login_def Let_def bob_reply py_get_def print_line_def del: json_dumps.simps)
  have other: "user_id (fst (login st login_name password inbound)) = user_id st
            \<and> user_login (fst (login st login_name password inbound)) = user_login st
            \<and> username (fst (login st login_name password inbound)) = username st
            \<and> (\<forall>kvs. json_loads response = Inr (JDict kvs) \<longrightarrow>
                  snd (login st login_name password inbound) = Returns JNull)"
    if "status \<noteq> 200"
    using that assms same
    by (auto simp: login_def Let_def py_get_def print_line_def
        simp del: json_dumps.simps split: sum.splits json.splits)
  from ok other show ?thesis by blast
qed

theorem login_on_delivered_reply_witness:
  "snd (send_request new_client ''POST'' ''/login'' None
          (Some (encode (json_dumps (JDict [(''login'', JStr ''bob''), (''password'', JStr ''x'')]))))
          [login_ok]) = Some (200, ''{\"id\":7,\"username\":\"Bob\"}'')
   \<and> snd (login new_client (JStr ''bob'') (JStr ''x'') [login_ok]) = Returns (JStr ''Bob'')
   \<and> user_id (fst (login new_client (JStr ''bob'') (JStr ''x'') [login_ok])) = JInt 7
   \<and> username (fst (login new_client (JStr ''bob'') (JStr ''x'') [login_ok])) = JStr ''Bob''
   \<and> snd (send_request new_client ''POST'' ''/login'' None
          (Some (encode (json_dumps (JDict [(''login'', JStr ''bob''), (''password'', JStr ''x'')]))))
          [login_refused]) = Some (201, ''{\"message\":\"denied\"}'')
   \<and> json_loads ''{\"message\":\"denied\"}'' = Inr (JDict [(''message'', JStr ''denied'')])
   \<and> snd (login new_client (JStr ''bob'') (JStr ''x'') [login_refused]) = Returns JNull
   \<and> user_id (fst (login new_client (JStr ''bob'') (JStr ''x'') [login_refused])) = JNull
   \<and> user_login (fst (login new_client (JStr ''bob'') (JStr ''x'') [login_refused])) = JNull
   \<and> username (fst (login new_client (JStr ''bob'') (JStr ''x'') [login_refused])) = JNull"
proof -
  let ?b = "Some (encode (json_dumps (JDict [(''login'', JStr ''bob''), (''password'', JStr ''x'')])))"
  have a: "snd (send_request new_client ''POST'' ''/login'' None ?b [login_ok]) =
             Some (200, ''{\"id\":7,\"username\":\"Bob\"}'')"
    by code_simp
  then have a': "send_request new_client ''POST'' ''/login'' None ?b [login_ok] =
      (fst (send_request new_client ''POST'' ''/login'' None ?b [login_ok]),
       Some (200, ''{\"id\":7,\"username\":\"Bob\"}''))"
    by (metis prod.collapse)
  have b: "snd (send_request new_client ''POST'' ''/login'' None ?b [login_refused]) =
             Some (201, ''{\"message\":\"denied\"}'')"
    by code_simp
  then have b': "send_request new_client ''POST'' ''/login'' None ?b [login_refused] =
      (fst (send_request new_client ''POST'' ''/login'' None ?b [login_refused]),
       Some (201, ''{\"message\":\"denied\"}''))"
    by (metis prod.collapse)
  have j: "json_loads ''{\"message\":\"denied\"}'' = Inr (JDict [(''message'', JStr ''denied'')])"
    by code_simp
  have n: "user_id new_client = JNull" "user_login new_client = JNull" "username new_client = JNull"
    by (simp_all add: new_client_def)
  from login_on_delivered_reply[OF a'] login_on_delivered_reply[OF b'] a b j n
  show ?thesis by simp
qed

text \<open>
  C7 as stated fails: a reply with status 201 whose body is not JSON makes \<open>login\<close> raise
  \<^verbatim>\<open>JSONDecodeError\<close>, since the body is parsed before the status is looked at.
\<close>

theorem login_raises_on_unparsable_reply_counterexample:
  "decode_frame [login_garbled] =
     Frame_ok ''HTTP/1.1 201 Created'' [(''content-length'', ''4'')] ''oops'' []
   \<and> status_of ''HTTP/1.1 201 Created'' = Inr 201
   \<and> snd (login new_client (JStr ''bob'') (JStr ''x'') [login_garbled]) = Raises JSONDecodeError
   \<and> snd (login new_client (JStr ''bob'') (JStr ''x'') [login_garbled]) \<noteq> Returns JNull"
  by code_simp

lemma fold_max_ge: "(a::nat) \<le> fold max xs a"
proof (induction xs arbitrary: a)
  case Nil
  then show ?case by simp
next
  case (Cons x xs)
  have "a \<le> max x a" by simp
  also have "\<dots> \<le> fold max xs (max x a)" by (rule Cons.IH)
  finally show ?case by simp
qed

lemma fold_max_bound: "x \<in> set xs \<Longrightarrow> (x::nat) \<le> fold max xs a"
proof (induction xs arbitrary: a)
  case Nil
  then show ?case by simp
next
  case (Cons y ys)
  show ?case
  proof (cases "x = y")
    case True
    have "x \<le> max y a" using True by simp
    also have "\<dots> \<le> fold max ys (max y a)" by (rule fold_max_ge)
    finally show ?thesis by simp
  next
    case False
    with Cons.prems have "x \<in> set ys" by simp
    from Cons.IH[OF this] show ?thesis by simp
  qed
qed

lemma fresh_unused: "map_of h (fresh h) = None"
proof -
  have "fresh h \<notin> fst ` set h"
  proof
    assume "fresh h \<in> fst ` set h"
    then have "fresh h \<in> set (map fst h)" by simp
    from fold_max_bound[OF this, of 0] show False by (simp add: fresh_def)
  qed
  then show ?thesis by (simp add: map_of_eq_None_iff)
qed

lemma members_arg_given:
  "members_arg st h (Some a) =
     (if py_in (user_id st) (deref h a) then h
      else AList.update a (deref h a @ [user_id st]) h, a)"
  by (simp add: members_arg_def)

lemma members_arg_omitted:
  "members_arg st h None =
     (AList.update (fresh h) [user_id st] (AList.update (fresh h) [] h), fresh h)"
  by (simp add: members_arg_def deref_def update_conv' py_in_def)

lemma create_new_chat_store:
  "fst (snd (create_new_chat st h chat_name members inbound)) = fst (members_arg st h members)"
  unfolding create_new_chat_def Let_def
  by (simp add: case_prod_unfold split: option.split sum.split)

lemma create_new_chat_client:
  "user_id (fst (create_new_chat st h chat_name members inbound)) = user_id st
   \<and> user_login (fst (create_new_chat st h chat_name members inbound)) = user_login st
   \<and> username (fst (create_new_chat st h chat_name members inbound)) = username st
   \<and> sent (fst (create_new_chat st h chat_name members inbound)) =
       sent st @ [request_bytes ''POST'' ''/create_chat'' None
         (Some (create_chat_body chat_name (user_id st)
            (deref (fst (members_arg st h members)) (snd (members_arg st h members)))))]"
proof -
  define ms where "ms = deref (fst (members_arg st h members)) (snd (members_arg st h members))"
  obtain st1 reply where
    sr: "send_request st ''POST'' ''/create_chat'' None
           (Some (create_chat_body chat_name (user_id st) ms)) inbound = (st1, reply)"
    by (cases "send_request st ''POST'' ''/create_chat'' None
           (Some (create_chat_body chat_name (user_id st) ms)) inbound")
  note same = send_request_frame[OF sr]
  have "fst (create_new_chat st h chat_name members inbound) = st1
        \<or> (\<exists>label vs. fst (create_new_chat st h chat_name members inbound) = print_line st1 label vs)"
    unfolding create_new_chat_def Let_def case_prod_unfold ms_def[symmetric] sr
    by (simp split: option.split sum.split) blast
  with same show ?thesis
    unfolding ms_def[symmetric] by (auto simp: print_line_def)
qed

text \<open>
  C10. \<open>create_new_chat\<close> with a list of the caller: after the call the caller's list (the
  same address of the store) holds the user id as its last element if it did not hold it
  before, and is unchanged otherwise; no other list changes, and the request carries that
  list. With no list given, a new address holds the list of the user id alone, no list of
  the caller changes, and the request carries that one-element list. The session fields
  are those before the call, whatever the reply.
\<close>

theorem create_new_chat_appends_to_callers_list:
  "(members = Some a \<and> map_of h a = Some ms \<longrightarrow>
      map_of (fst (snd (create_new_chat st h chat_name members inbound))) a =
        Some (if py_in (user_id st) ms then ms else ms @ [user_id st])
      \<and> (\<forall>a'. a' \<noteq> a \<longrightarrow>
            map_of (fst (snd (create_new_chat st h chat_name members inbound))) a' = map_of h a')
      \<and> sent (fst (create_new_chat st h chat_name members inbound)) =
          sent st @ [request_bytes ''POST'' ''/create_chat'' None
            (Some (create_chat_body chat_name (user_id st)
               (if py_in (user_id st) ms then ms else ms @ [user_id st])))])
   \<and> (members = None \<longrightarrow>
      map_of h (fresh h) = None
      \<and> map_of (fst (snd (create_new_chat st h chat_name members inbound))) (fresh h) =
          Some [user_id st]
      \<and> (\<forall>a'. a' \<noteq> fresh h \<longrightarrow>
            map_of (fst (snd (create_new_chat st h chat_name members inbound))) a' = map_of h a')
      \<and> sent (fst (create_new_chat st h chat_name members inbound)) =
          sent st @ [request_bytes ''POST'' ''/create_chat'' None
            (Some (create_chat_body chat_name (user_id st) [user_id st]))])
   \<and> user_id (fst (create_new_chat st h chat_name members inbound)) = user_id st
   \<and> user_login (fst (create_new_chat st h chat_name members inbound)) = user_login st
   \<and> username (fst (create_new_chat st h chat_name members inbound)) = username st"
proof -
  note client = create_new_chat_client[of st h chat_name members inbound]
  note store = create_new_chat_store[of st h chat_name members inbound]
  have given: "map_of (fst (snd (create_new_chat st h chat_name members inbound))) a =
        Some (if py_in (user_id st) ms then ms else ms @ [user_id st])
      \<and> (\<forall>a'. a' \<noteq> a \<longrightarrow>
            map_of (fst (snd (create_new_chat st h chat_name members inbound))) a' = map_of h a')
      \<and> sent (fst (create_new_chat st h chat_name members inbound)) =
          sent st @ [request_bytes ''POST'' ''/create_chat'' None
            (Some (create_chat_body chat_name (user_id st)
               (if py_in (user_id st) ms then ms else ms @ [user_id st])))]"
    if "members = Some a" "map_of h a = Some ms"
    using that client store by (simp add: members_arg_given deref_def update_conv')
  have omitted: "map_of h (fresh h) = None
      \<and> map_of (fst (snd (create_new_chat st h chat_name members inbound))) (fresh h) =
          Some [user_id st]
      \<and> (\<forall>a'. a' \<noteq> fresh h \<longrightarrow>
            map_of (fst (snd (create_new_chat st h chat_name members inbound))) a' = map_of h a')
      \<and> sent (fst (create_new_chat st h chat_name members inbound)) =
          sent st @ [request_bytes ''POST'' ''/create_chat'' None
            (Some (create_chat_body chat_name (user_id st) [user_id st]))]"
    if "members = None"
    using that client store by (simp add: members_arg_omitted deref_def fresh_unused update_conv')
  from given omitted client show ?thesis by blast
qed

theorem create_new_chat_appends_to_callers_list_witness:
  "map_of [(0, [JInt 3])] 0 = Some [JInt 3]
   \<and> map_of (fst (snd (create_new_chat (new_client\<lparr>user_id := JInt 7\<rparr>) [(0, [JInt 3])]
         (JStr ''team'') (Some 0) [chat_created]))) 0 = Some [JInt 3, JInt 7]
   \<and> snd (snd (create_new_chat (new_client\<lparr>user_id := JInt 7\<rparr>) [(0, [JInt 3])]
         (JStr ''team'') (Some 0) [chat_created])) = Returns (JInt 9)
   \<and> map_of (fst (snd (create_new_chat (new_client\<lparr>user_id := JInt 7\<rparr>) [(0, [JInt 3])]
         (JStr ''team'') None [chat_created]))) 0 = Some [JInt 3]
   \<and> map_of (fst (snd (create_new_chat (new_client\<lparr>user_id := JInt 7\<rparr>) [(0, [JInt 3])]
         (JStr ''team'') None [chat_created]))) 1 = Some [JInt 7]
   \<and> user_id (fst (create_new_chat (new_client\<lparr>user_id := JInt 7\<rparr>) [(0, [JInt 3])]
         (JStr ''team'') None [chat_created])) = JInt 7"
proof -
  let ?st = "new_client\<lparr>user_id := JInt 7\<rparr>"
  let ?h = "[(0::nat, [JInt 3])]"
  have m: "map_of ?h 0 = Some [JInt 3]" by simp
  have u: "user_id ?st = JInt 7" by simp
  have i: "\<not> py_in (JInt 7) [JInt 3]" by code_simp
  have f: "fresh ?h = 1" by code_simp
  have r: "snd (snd (create_new_chat ?st ?h (JStr ''team'') (Some 0) [chat_created])) =
             Returns (JInt 9)"
    by code_simp
  from create_new_chat_appends_to_callers_list[of "Some 0" 0 ?h "[JInt 3]" ?st "JStr ''team''"
      "[chat_created]"]
    create_new_chat_appends_to_callers_list[of None 0 ?h "[JInt 3]" ?st "JStr ''team''"
      "[chat_created]"] m u i f r
  show ?thesis by simp
qed

section \<open>Replies with other statuses\<close>

text \<open>
  Whatever its \<open>type\<close>, a frame with a status other than 200 and 201 leaves the client
  as it was: nothing is put on the queue and the handler is not called.
\<close>

lemma other_status_is_dropped:
  assumes "decode_frame sock = Frame_ok status_line headers_dict body rest"
    and "status_of status_line = Inr status"
    and "status \<noteq> 200" and "status \<noteq> 201"
  shows "receive_loop st sock = receive_loop st rest"
proof -
  from assms(2-4) have "route st status_line headers_dict body = Inr st"
    by (simp add: route_def)
  with assms(1) show ?thesis by (rule receive_loop_next)
qed

text \<open>
  C1. The server answers a download with status 404 and the body
  \<^verbatim>\<open>{"message":"not found"}\<close>. The loop decodes the frame and, the status being neither 200
  nor 201, puts nothing on the queue: \<open>download\<close> never returns, so its caller receives
  neither the absence nor the message. No file is written and the receive thread waits
  for the next frame.
\<close>

theorem download_of_missing_file_never_returns:
  "decode_frame [reply_404] =
     Frame_ok ''HTTP/1.1 404 Not Found'' [(''content-length'', ''23'')]
       ''{\"message\":\"not found\"}'' []
   \<and> status_of ''HTTP/1.1 404 Not Found'' = Inr 404
   \<and> download new_client (JStr ''uploads/7/a.png'') [reply_404] =
       (new_client\<lparr>sent := [''GET /download?file=uploads/7/a.png HTTP/1.1'' @ CRLF
                               @ ''Content-Length: 0'' @ CRLF2]\<rparr>, Hangs)"
  by code_simp

text \<open>
  C2. One request, answered with status 404: the wait of \<open>send_request\<close> does not return
  the reply, or anything. With status 200 the reply is returned.
\<close>

theorem reply_with_status_404_is_never_returned:
  "decode_frame [reply_404] =
     Frame_ok ''HTTP/1.1 404 Not Found'' [(''content-length'', ''23'')]
       ''{\"message\":\"not found\"}'' []
   \<and> receive_loop new_client [reply_404] = new_client
   \<and> snd (send_request new_client ''GET'' ''/chats'' (Some [(''id'', JInt 7)]) None [reply_404])
       = None
   \<and> snd (send_request new_client ''GET'' ''/chats'' (Some [(''id'', JInt 7)]) None [reply_200])
       = Some (200, ''ok'')"
  by code_simp

end
